theory Spec2Isabelle
  imports Main "HOL-Library.Word"
begin

section \<open>Memory: blocks, allocation and release\<close>

text \<open>
  A pointer is an address; address 0 is the null pointer. The memory holds the live
  blocks (address and bytes, newest first), the number of bytes the allocator can still
  hand out, and a log of what the allocator and the delete-expression did, oldest first.
\<close>

type_synonym addr = nat

datatype SCIP_RETCODE = SCIP_OKAY | SCIP_NOMEMORY

datatype event = Alloc addr | Free addr | InvalidFree addr | ObjectReleased

record memory =
  blocks :: "(addr \<times> char list) list"
  capacity :: nat
  events :: "event list"

datatype fault = Undefined | Abort SCIP_RETCODE memory

definition NUL :: char where
  "NUL = CHR 0x00"

definition lookup_block :: "memory \<Rightarrow> addr \<Rightarrow> char list option" where
  "lookup_block m p = (if p = 0 then None else map_of (blocks m) p)"

text \<open>
  The C string at a pointer: the bytes before the first NUL of the block. A null or
  dangling pointer, or a block without a NUL, has no string (reading it is undefined
  behaviour in C).
\<close>

definition cstring :: "memory \<Rightarrow> addr \<Rightarrow> char list option" where
  "cstring m p =
     (case lookup_block m p of
        None \<Rightarrow> None
      | Some bs \<Rightarrow> if NUL \<in> set bs then Some (takeWhile (\<lambda>c. c \<noteq> NUL) bs) else None)"

text \<open>\<^verbatim>\<open>std::strlen\<close>, with the undefined cases as \<open>None\<close>.\<close>

definition strlen :: "memory \<Rightarrow> addr \<Rightarrow> nat option" where
  "strlen m p = map_option length (cstring m p)"

definition fresh_addr :: "memory \<Rightarrow> addr" where
  "fresh_addr m = Suc (Max (insert 0 (fst ` set (blocks m))))"

text \<open>
  Modelled from the spec: the macro \<^verbatim>\<open>SCIPduplicateMemoryArray(scip, ptr, source, num)\<close>
  of the host's memory interface, which objtable.h uses and does not define. It makes a
  heap copy of \<open>num\<close> bytes at \<open>source\<close> and stores its address through \<open>ptr\<close>; when
  the copy cannot be allocated it reports the allocation failure and the pointer is null.
  The copy cannot be allocated when fewer than \<open>num\<close> bytes are left. Reading
  \<open>num\<close> bytes from a pointer that has no live block of that size is undefined. The
  result is the return code, the pointer stored through \<open>ptr\<close> and the memory.
\<close>

definition SCIPduplicateMemoryArray ::
  "memory \<Rightarrow> addr \<Rightarrow> nat \<Rightarrow> fault + (SCIP_RETCODE \<times> addr \<times> memory)" where
  "SCIPduplicateMemoryArray m source num =
     (if capacity m < num then Inr (SCIP_NOMEMORY, 0, m)
      else
        (case lookup_block m source of
           None \<Rightarrow> Inl Undefined
         | Some bs \<Rightarrow>
             if length bs < num then Inl Undefined
             else
               (let p = fresh_addr m
                in Inr (SCIP_OKAY, p,
                        m\<lparr>blocks := (p, take num bs) # blocks m,
                          capacity := capacity m - num,
                          events := events m @ [Alloc p]\<rparr>))))"

text \<open>
  Modelled from the spec: the macro \<^verbatim>\<open>SCIPfreeMemoryArray(scip, ptr)\<close> of the host's
  memory interface, which objtable.h uses and does not define. It releases the heap block
  at the pointer. A pointer that is null or has no live block releases nothing and is
  logged as an invalid free.
\<close>

definition SCIPfreeMemoryArray :: "memory \<Rightarrow> addr \<Rightarrow> memory" where
  "SCIPfreeMemoryArray m p =
     (case lookup_block m p of
        None \<Rightarrow> m\<lparr>events := events m @ [InvalidFree p]\<rparr>
      | Some bs \<Rightarrow>
          m\<lparr>blocks := filter (\<lambda>(a, _). a \<noteq> p) (blocks m),
            capacity := capacity m + length bs,
            events := events m @ [Free p]\<rparr>)"

text \<open>
  Modelled from the spec: the macro \<^verbatim>\<open>SCIP_CALL_ABORT(x)\<close> of the host, which
  objtable.h uses and does not define. A return code other than \<^verbatim>\<open>SCIP_OKAY\<close> aborts
  the whole host operation with that code; otherwise execution goes on.
\<close>

definition SCIP_CALL_ABORT :: "SCIP_RETCODE \<times> 'a \<times> memory \<Rightarrow> fault + ('a \<times> memory)" where
  "SCIP_CALL_ABORT r =
     (case r of (rc, x, m) \<Rightarrow> if rc \<noteq> SCIP_OKAY then Inl (Abort rc m) else Inr (x, m))"

text \<open>The memory after a successful heap copy of the string \<open>s\<close>.\<close>

definition copied :: "memory \<Rightarrow> char list \<Rightarrow> memory" where
  "copied m s =
     m\<lparr>blocks := (fresh_addr m, s @ [NUL]) # blocks m,
       capacity := capacity m - (length s + 1),
       events := events m @ [Alloc (fresh_addr m)]\<rparr>"

definition alloc_count :: "memory \<Rightarrow> nat" where
  "alloc_count m = length (filter (\<lambda>e. case e of Alloc _ \<Rightarrow> True | _ \<Rightarrow> False) (events m))"

definition free_count :: "memory \<Rightarrow> nat" where
  "free_count m = length (filter (\<lambda>e. case e of Free _ \<Rightarrow> True | _ \<Rightarrow> False) (events m))"

definition invalid_free_count :: "memory \<Rightarrow> nat" where
  "invalid_free_count m =
     length (filter (\<lambda>e. case e of InvalidFree _ \<Rightarrow> True | _ \<Rightarrow> False) (events m))"

section \<open>The class ObjTable\<close>

text \<open>
  The fields of \<^verbatim>\<open>scip::ObjTable\<close> (objtable.h, lines 48 to 61). The type
  \<^verbatim>\<open>SCIP_STAGE\<close> is declared by the host and is a type parameter here; \<^verbatim>\<open>int\<close> is
  a 32-bit word. A name cannot end in an underscore here, so the trailing underscore of
  each field is written as a prime: \<^verbatim>\<open>scip_name_\<close> is \<open>scip_name'\<close>.
\<close>

record 's ObjTable =
  scip' :: addr
  scip_name' :: addr
  scip_desc' :: addr
  scip_position' :: "32 word"
  scip_earlieststage' :: 's

text \<open>
  The constructor (lines 64 to 80): the member initialisers, then the two guarded copies
  in source order. \<^verbatim>\<open>std::strlen(name)+1\<close> is evaluated before each copy.
\<close>

definition ObjTable_ctor ::
  "memory \<Rightarrow> addr \<Rightarrow> addr \<Rightarrow> addr \<Rightarrow> 32 word \<Rightarrow> 's \<Rightarrow> fault + ('s ObjTable \<times> memory)" where
  "ObjTable_ctor m scip name desc position earlieststage =
     (let this = \<lparr>scip' = scip, scip_name' = 0, scip_desc' = 0,
                  scip_position' = position, scip_earlieststage' = earlieststage\<rparr>
      in case strlen m name of
           None \<Rightarrow> Inl Undefined
         | Some n \<Rightarrow>
      (case SCIPduplicateMemoryArray m name (n + 1) of
           Inl f \<Rightarrow> Inl f
         | Inr r1 \<Rightarrow>
      (case SCIP_CALL_ABORT r1 of
           Inl f \<Rightarrow> Inl f
         | Inr (p1, m1) \<Rightarrow>
      (let this = this\<lparr>scip_name' := p1\<rparr>
       in case strlen m1 desc of
           None \<Rightarrow> Inl Undefined
         | Some k \<Rightarrow>
      (case SCIPduplicateMemoryArray m1 desc (k + 1) of
           Inl f \<Rightarrow> Inl f
         | Inr r2 \<Rightarrow>
      (case SCIP_CALL_ABORT r2 of
           Inl f \<Rightarrow> Inl f
         | Inr (p2, m2) \<Rightarrow> Inr (this\<lparr>scip_desc' := p2\<rparr>, m2)))))))"


text \<open>
  The destructor (lines 83 to 89): the name copy is released, then the description copy.
  The object is gone afterwards, so only the memory is returned.
\<close>

definition ObjTable_dtor :: "memory \<Rightarrow> 's ObjTable \<Rightarrow> memory" where
  "ObjTable_dtor m this =
     (let m1 = SCIPfreeMemoryArray m (scip_name' this);
          m2 = SCIPfreeMemoryArray m1 (scip_desc' this)
      in m2)"

text \<open>
  A delete-expression on an object (\<^verbatim>\<open>delete mytable\<close> in the comment at lines 151 to
  165): C++ runs the destructor body and then releases the storage of the object.
\<close>

definition delete_ObjTable :: "memory \<Rightarrow> 's ObjTable \<Rightarrow> memory" where
  "delete_ObjTable m this =
     (let m' = ObjTable_dtor m this
      in m'\<lparr>events := events m' @ [ObjectReleased]\<rparr>)"

section \<open>The hooks\<close>

text \<open>
  The five hooks with a body (lines 95 to 134). Their argument lists come from macros of
  the host (\<^verbatim>\<open>SCIP_DECL_TABLEFREE\<close> and so on) that objtable.h uses and does not
  define; by the specification they are the host handle and the registry entry, and for
  the output hook the output sink as well. A hook is a member function: it may read and
  write the object and everything outside it, so the model passes the object and the
  state \<open>w\<close> of the rest of the world in and out.
\<close>

type_synonym ('w, 's) table_hook =
  "'w \<Rightarrow> 's ObjTable \<Rightarrow> addr \<Rightarrow> addr \<Rightarrow> SCIP_RETCODE \<times> 's ObjTable \<times> 'w"

type_synonym ('w, 's) output_hook =
  "'w \<Rightarrow> 's ObjTable \<Rightarrow> addr \<Rightarrow> addr \<Rightarrow> addr \<Rightarrow> SCIP_RETCODE \<times> 's ObjTable \<times> 'w"

definition scip_free :: "('w, 's) table_hook" where
  "scip_free w this scip table = (SCIP_OKAY, this, w)"

definition scip_init :: "('w, 's) table_hook" where
  "scip_init w this scip table = (SCIP_OKAY, this, w)"

definition scip_exit :: "('w, 's) table_hook" where
  "scip_exit w this scip table = (SCIP_OKAY, this, w)"

definition scip_initsol :: "('w, 's) table_hook" where
  "scip_initsol w this scip table = (SCIP_OKAY, this, w)"

definition scip_exitsol :: "('w, 's) table_hook" where
  "scip_exitsol w this scip table = (SCIP_OKAY, this, w)"

text \<open>
  The life of an object whose class overrides none of the five: the host calls them in
  any order and number, each with its own arguments.
\<close>

datatype hook = TABLEFREE | TABLEINIT | TABLEEXIT | TABLEINITSOL | TABLEEXITSOL

fun default_hook :: "hook \<Rightarrow> ('w, 's) table_hook" where
  "default_hook TABLEFREE = scip_free"
| "default_hook TABLEINIT = scip_init"
| "default_hook TABLEEXIT = scip_exit"
| "default_hook TABLEINITSOL = scip_initsol"
| "default_hook TABLEEXITSOL = scip_exitsol"

fun run_hooks ::
  "(hook \<times> addr \<times> addr) list \<Rightarrow> 'w \<Rightarrow> 's ObjTable \<Rightarrow> SCIP_RETCODE list \<times> 's ObjTable \<times> 'w" where
  "run_hooks [] w this = ([], this, w)"
| "run_hooks ((h, scip, table) # cs) w this =
     (case default_hook h w this scip table of
        (rc, this1, w1) \<Rightarrow>
          (case run_hooks cs w1 this1 of
             (rcs, this2, w2) \<Rightarrow> (rc # rcs, this2, w2)))"

text \<open>
  The virtual member functions of a class: \<open>None\<close> is a member without a body
  (declared \<^verbatim>\<open>= 0\<close>), \<open>Some f\<close> a member with the body \<open>f\<close>. In ObjTable the five
  hooks above have a body and \<^verbatim>\<open>scip_output\<close> (line 140) has none.
\<close>

record ('w, 's) virtuals =
  v_scip_free :: "('w, 's) table_hook option"
  v_scip_init :: "('w, 's) table_hook option"
  v_scip_exit :: "('w, 's) table_hook option"
  v_scip_initsol :: "('w, 's) table_hook option"
  v_scip_exitsol :: "('w, 's) table_hook option"
  v_scip_output :: "('w, 's) output_hook option"

definition ObjTable_virtuals :: "('w, 's) virtuals" where
  "ObjTable_virtuals =
     \<lparr>v_scip_free = Some scip_free,
      v_scip_init = Some scip_init,
      v_scip_exit = Some scip_exit,
      v_scip_initsol = Some scip_initsol,
      v_scip_exitsol = Some scip_exitsol,
      v_scip_output = None\<rparr>"

text \<open>
  A class derived from a base: a member the derived class declares replaces the member of
  the base, the others are inherited. In the second argument \<open>None\<close> is a member the
  derived class does not declare.
\<close>

definition inherit :: "'a option \<Rightarrow> 'a option \<Rightarrow> 'a option" where
  "inherit base own = (case own of None \<Rightarrow> base | Some f \<Rightarrow> Some f)"

definition derive :: "('w, 's) virtuals \<Rightarrow> ('w, 's) virtuals \<Rightarrow> ('w, 's) virtuals" where
  "derive base own =
     \<lparr>v_scip_free = inherit (v_scip_free base) (v_scip_free own),
      v_scip_init = inherit (v_scip_init base) (v_scip_init own),
      v_scip_exit = inherit (v_scip_exit base) (v_scip_exit own),
      v_scip_initsol = inherit (v_scip_initsol base) (v_scip_initsol own),
      v_scip_exitsol = inherit (v_scip_exitsol base) (v_scip_exitsol own),
      v_scip_output = inherit (v_scip_output base) (v_scip_output own)\<rparr>"

text \<open>
  The rule of C++ for abstract classes: a class with a virtual member that has no body is
  abstract, and no object of an abstract class can be created.
\<close>

definition abstract_class :: "('w, 's) virtuals \<Rightarrow> bool" where
  "abstract_class c \<longleftrightarrow>
     v_scip_free c = None \<or> v_scip_init c = None \<or> v_scip_exit c = None \<or>
     v_scip_initsol c = None \<or> v_scip_exitsol c = None \<or> v_scip_output c = None"

definition instantiable :: "('w, 's) virtuals \<Rightarrow> bool" where
  "instantiable c \<longleftrightarrow> \<not> abstract_class c"

section \<open>The registry bridge\<close>

text \<open>
  The host's entry for a statistics table: the identity taken from the object and the
  user data. The user data is either absent, or set by some other mechanism, or set by the
  bridge to the object pointer and the flag that tells whether the host deletes the object.
\<close>

datatype tabledata = NoData | ForeignData addr | ObjTableData addr bool

record 's SCIP_TABLE =
  table_name :: "char list"
  table_desc :: "char list"
  table_position :: "32 word"
  table_earlieststage :: 's
  table_data :: tabledata

record 's host =
  tables :: "'s SCIP_TABLE list"
  table_slots :: nat

datatype register_result = Registered | NameCollision | NoStorage | InvalidObject

definition find_table :: "'s host \<Rightarrow> char list \<Rightarrow> 's SCIP_TABLE option" where
  "find_table h name = find (\<lambda>t. table_name t = name) (tables h)"

text \<open>
  Modelled from the spec: \<^verbatim>\<open>SCIPincludeObjTable\<close>, which objtable.h declares (lines 167
  to 172) and does not define. It wraps the identity of the object into an entry of the
  host with the object pointer as user data; it fails when an entry of the same name is
  registered already, or when the storage for the entry cannot be allocated, and then the
  registry is left as it was. \<open>objtable\<close> is the pointer and \<open>this\<close> the object it points
  to; \<open>table_slots\<close> counts the entries the storage can still take.
\<close>

definition SCIPincludeObjTable ::
  "memory \<Rightarrow> 's host \<Rightarrow> addr \<Rightarrow> 's ObjTable \<Rightarrow> bool \<Rightarrow> register_result \<times> 's host" where
  "SCIPincludeObjTable m h objtable this deleteobject =
     (case cstring m (scip_name' this) of
        None \<Rightarrow> (InvalidObject, h)
      | Some name \<Rightarrow>
     (case cstring m (scip_desc' this) of
        None \<Rightarrow> (InvalidObject, h)
      | Some desc \<Rightarrow>
          if find_table h name \<noteq> None then (NameCollision, h)
          else if table_slots h = 0 then (NoStorage, h)
          else (Registered,
                h\<lparr>tables := tables h @
                     [\<lparr>table_name = name, table_desc = desc,
                       table_position = scip_position' this,
                       table_earlieststage = scip_earlieststage' this,
                       table_data = ObjTableData objtable deleteobject\<rparr>],
                  table_slots := table_slots h - 1\<rparr>)))"

text \<open>
  Modelled from the spec: \<^verbatim>\<open>SCIPgetObjTable\<close>, which objtable.h declares (lines 181 to
  186) and does not define. It reads the user data of the entry back and returns the object
  pointer, or nothing when the user data was not set by the bridge.
\<close>

definition SCIPgetObjTable :: "'s SCIP_TABLE \<Rightarrow> addr option" where
  "SCIPgetObjTable table =
     (case table_data table of
        ObjTableData objtable _ \<Rightarrow> Some objtable
      | _ \<Rightarrow> None)"

text \<open>
  Modelled from the spec: \<^verbatim>\<open>SCIPfindObjTable\<close>, which objtable.h declares (lines 174 to
  179) and does not define. It looks the entry up by exact match of the name and returns
  the object of the entry, or nothing.
\<close>

definition SCIPfindObjTable :: "'s host \<Rightarrow> char list \<Rightarrow> addr option" where
  "SCIPfindObjTable h name =
     (case find_table h name of
        None \<Rightarrow> None
      | Some t \<Rightarrow> SCIPgetObjTable t)"

section \<open>An example\<close>

text \<open>
  The scenario of the specification: the caller's strings \<^verbatim>\<open>"gapstat"\<close> at address 1 and
  \<^verbatim>\<open>"gap statistics"\<close> at address 2, the host at address 7, position 1000 and the stage
  \<^verbatim>\<open>"solving"\<close>. \<open>example_memory c\<close> is the memory before the construction with \<open>c\<close>
  bytes left to allocate; with 64 bytes the construction succeeds and gives
  \<open>example_object\<close> in \<open>example_constructed\<close>.
\<close>

definition example_memory :: "nat \<Rightarrow> memory" where
  "example_memory c =
     \<lparr>blocks = [(1, ''gapstat'' @ [NUL]), (2, ''gap statistics'' @ [NUL])],
      capacity = c, events = []\<rparr>"

definition example_object :: "char list ObjTable" where
  "example_object =
     \<lparr>scip' = 7, scip_name' = 3, scip_desc' = 4, scip_position' = 1000,
      scip_earlieststage' = ''solving''\<rparr>"

definition example_constructed :: memory where
  "example_constructed =
     \<lparr>blocks = [(4, ''gap statistics'' @ [NUL]), (3, ''gapstat'' @ [NUL]),
                (1, ''gapstat'' @ [NUL]), (2, ''gap statistics'' @ [NUL])],
      capacity = 41, events = [Alloc 3, Alloc 4]\<rparr>"



text \<open>
  The registry after \<open>example_object\<close>, which lives at address 20, has been registered
  in an empty registry with room for four entries, to be deleted by the host.
\<close>

definition example_registered :: "char list host" where
  "example_registered =
     \<lparr>tables = [\<lparr>table_name = ''gapstat'', table_desc = ''gap statistics'',
                 table_position = 1000, table_earlieststage = ''solving'',
                 table_data = ObjTableData 20 True\<rparr>],
      table_slots = 3\<rparr>"

section \<open>Facts about the memory\<close>

lemma fresh_addr_gt: "(a, bs) \<in> set (blocks m) \<Longrightarrow> a < fresh_addr m"
  unfolding fresh_addr_def
  by (metis List.finite_set Max_ge finite_imageI finite_insert fst_conv image_eqI insertCI
      le_imp_less_Suc)

lemma fresh_addr_nonzero: "fresh_addr m \<noteq> 0"
  by (simp add: fresh_addr_def)

lemma lookup_block_fresh: "lookup_block m (fresh_addr m) = None"
  unfolding lookup_block_def
  by (auto simp: map_of_eq_None_iff dest: fresh_addr_gt)

lemma lookup_block_live: "lookup_block m p = Some bs \<Longrightarrow> p \<noteq> 0 \<and> p \<noteq> fresh_addr m"
  using lookup_block_fresh [of m] by (auto simp: lookup_block_def split: if_splits)

lemma takeWhile_NUL_length:
  "NUL \<in> set bs \<Longrightarrow> length (takeWhile (\<lambda>c. c \<noteq> NUL) bs) < length bs"
  by (induction bs) auto

lemma take_cstring:
  "NUL \<in> set bs \<Longrightarrow>
   take (Suc (length (takeWhile (\<lambda>c. c \<noteq> NUL) bs))) bs = takeWhile (\<lambda>c. c \<noteq> NUL) bs @ [NUL]"
  by (induction bs) auto

lemma takeWhile_snoc_NUL: "NUL \<notin> set s \<Longrightarrow> takeWhile (\<lambda>c. c \<noteq> NUL) (s @ [NUL]) = s"
  by (induction s) auto

lemma cstring_block:
  "cstring m p = Some s \<Longrightarrow>
   \<exists>bs. lookup_block m p = Some bs \<and> NUL \<in> set bs \<and> s = takeWhile (\<lambda>c. c \<noteq> NUL) bs"
  by (auto simp: cstring_def split: option.splits if_splits)

lemma cstring_no_NUL: "cstring m p = Some s \<Longrightarrow> NUL \<notin> set s"
  by (auto dest!: cstring_block set_takeWhileD)

lemma cstring_live: "cstring m p = Some s \<Longrightarrow> p \<noteq> 0 \<and> p \<noteq> fresh_addr m"
  by (auto dest!: cstring_block lookup_block_live)

lemma duplicate_cstring:
  assumes "cstring m p = Some s"
  shows "SCIPduplicateMemoryArray m p (length s + 1) =
           (if capacity m < length s + 1 then Inr (SCIP_NOMEMORY, 0, m)
            else Inr (SCIP_OKAY, fresh_addr m, copied m s))"
proof -
  from cstring_block [OF assms] obtain bs where
    bs: "lookup_block m p = Some bs" "NUL \<in> set bs" "s = takeWhile (\<lambda>c. c \<noteq> NUL) bs"
    by blast
  have "length s < length bs"
    using bs takeWhile_NUL_length by simp
  moreover have "take (length s + 1) bs = s @ [NUL]"
    using bs take_cstring by simp
  ultimately show ?thesis
    using bs by (simp add: SCIPduplicateMemoryArray_def copied_def Let_def)
qed

lemma lookup_block_copied:
  "lookup_block (copied m s) p =
     (if p = fresh_addr m then Some (s @ [NUL]) else lookup_block m p)"
  by (simp add: lookup_block_def copied_def fresh_addr_nonzero)

lemma cstring_copied_old: "cstring m p = Some t \<Longrightarrow> cstring (copied m s) p = Some t"
  using lookup_block_fresh [of m]
  by (auto simp: cstring_def lookup_block_copied split: option.splits if_splits)

lemma cstring_copied_new: "NUL \<notin> set s \<Longrightarrow> cstring (copied m s) (fresh_addr m) = Some s"
  by (simp add: cstring_def lookup_block_copied takeWhile_snoc_NUL)

lemma fresh_addr_copied: "fresh_addr (copied m s) \<noteq> fresh_addr m"
  using lookup_block_fresh [of "copied m s"] by (auto simp: lookup_block_copied)

lemma filter_other_addr:
  "\<forall>(a, bs) \<in> set xs. a \<noteq> p \<Longrightarrow> filter (\<lambda>(a, _). a \<noteq> p) xs = xs"
  by (induction xs) auto

lemma map_of_filter_addr:
  "map_of (filter (\<lambda>(a, _). a \<noteq> p) xs) q = (if q = p then None else map_of xs q)"
  by (induction xs) auto

lemma lookup_block_free:
  "lookup_block (SCIPfreeMemoryArray m p) q =
     (if q = p then None else lookup_block m q)"
  by (auto simp: SCIPfreeMemoryArray_def lookup_block_def map_of_filter_addr
      split: option.splits)

lemma events_free:
  "events (SCIPfreeMemoryArray m p) =
     events m @ [if lookup_block m p = None then InvalidFree p else Free p]"
  by (auto simp: SCIPfreeMemoryArray_def split: option.splits)

lemma blocks_free:
  "blocks (SCIPfreeMemoryArray m p) =
     (if lookup_block m p = None then blocks m else filter (\<lambda>(a, _). a \<noteq> p) (blocks m))"
  by (auto simp: SCIPfreeMemoryArray_def split: option.splits)

lemma fresh_addr_copied_gt: "(a, bs) \<in> set (blocks m) \<Longrightarrow> a < fresh_addr (copied m s)"
proof -
  assume "(a, bs) \<in> set (blocks m)"
  then have "(a, bs) \<in> set (blocks (copied m s))" by (simp add: copied_def)
  then show ?thesis by (rule fresh_addr_gt)
qed

lemma capacity_free:
  "capacity (SCIPfreeMemoryArray m p) =
     capacity m + (case lookup_block m p of None \<Rightarrow> 0 | Some bs \<Rightarrow> length bs)"
  by (auto simp: SCIPfreeMemoryArray_def split: option.splits)

lemma more_free: "memory.more (SCIPfreeMemoryArray m p) = memory.more m"
  by (auto simp: SCIPfreeMemoryArray_def split: option.splits)

lemma count_simps:
  "alloc_count (m\<lparr>events := es\<rparr>) = length (filter (\<lambda>e. case e of Alloc _ \<Rightarrow> True | _ \<Rightarrow> False) es)"
  "free_count (m\<lparr>events := es\<rparr>) = length (filter (\<lambda>e. case e of Free _ \<Rightarrow> True | _ \<Rightarrow> False) es)"
  "invalid_free_count (m\<lparr>events := es\<rparr>) = length (filter (\<lambda>e. case e of InvalidFree _ \<Rightarrow> True | _ \<Rightarrow> False) es)"
  by (simp_all add: alloc_count_def free_count_def invalid_free_count_def)

lemma cstring_free:
  "cstring (SCIPfreeMemoryArray m p) q = (if q = p then None else cstring m q)"
  by (simp add: cstring_def lookup_block_free)

lemma lookup_block_before_copy: "lookup_block m (fresh_addr (copied m s)) = None"
  unfolding lookup_block_def
  by (auto simp: map_of_eq_None_iff dest: fresh_addr_copied_gt [where s = s])

section \<open>Facts about the constructor\<close>

lemma ObjTable_ctor_valid:
  assumes "cstring m name = Some s" and "cstring m desc = Some d"
  shows "ObjTable_ctor m scip name desc position earlieststage =
           (if capacity m < length s + 1 then Inl (Abort SCIP_NOMEMORY m)
            else if capacity (copied m s) < length d + 1
              then Inl (Abort SCIP_NOMEMORY (copied m s))
            else Inr (\<lparr>scip' = scip, scip_name' = fresh_addr m,
                       scip_desc' = fresh_addr (copied m s),
                       scip_position' = position, scip_earlieststage' = earlieststage\<rparr>,
                      copied (copied m s) d))"
proof -
  have d1: "cstring (copied m s) desc = Some d"
    using assms(2) by (rule cstring_copied_old)
  have n: "strlen m name = Some (length s)"
    and k: "strlen (copied m s) desc = Some (length d)"
    using assms(1) d1 by (simp_all add: strlen_def)
  note dup1 = duplicate_cstring [OF assms(1)]
  have dup2: "SCIPduplicateMemoryArray (copied m s) desc (Suc (length d)) =
           (if capacity (copied m s) < Suc (length d) then Inr (SCIP_NOMEMORY, 0, copied m s)
            else Inr (SCIP_OKAY, fresh_addr (copied m s), copied (copied m s) d))"
    using duplicate_cstring [OF d1] by simp
  show ?thesis
    unfolding ObjTable_ctor_def Let_def n option.case dup1
    by (simp add: SCIP_CALL_ABORT_def k dup2)
qed


lemma ctor_success:
  assumes "cstring m name = Some s" and "cstring m desc = Some d"
    and "ObjTable_ctor m scip name desc position earlieststage = Inr (this, m1)"
  shows "length s + 1 \<le> capacity m" and "length d + 1 \<le> capacity (copied m s)"
    and "this = \<lparr>scip' = scip, scip_name' = fresh_addr m,
                  scip_desc' = fresh_addr (copied m s),
                  scip_position' = position, scip_earlieststage' = earlieststage\<rparr>"
    and "m1 = copied (copied m s) d"
  using assms(3) unfolding ObjTable_ctor_valid [OF assms(1,2)]
  by (auto split: if_splits)

section \<open>Facts about the destructor\<close>



lemma free_both_copies:
  assumes "length s + 1 \<le> capacity m" and "length d + 1 \<le> capacity (copied m s)"
  shows "SCIPfreeMemoryArray
           (SCIPfreeMemoryArray (copied (copied m s) d) (fresh_addr m))
           (fresh_addr (copied m s)) =
         m\<lparr>events := events m @
              [Alloc (fresh_addr m), Alloc (fresh_addr (copied m s)),
               Free (fresh_addr m), Free (fresh_addr (copied m s))]\<rparr>"
proof -
  let ?p1 = "fresh_addr m" and ?p2 = "fresh_addr (copied m s)"
  let ?m2 = "copied (copied m s) d"
  have ne: "?p2 \<noteq> ?p1" by (rule fresh_addr_copied)
  have f1: "filter (\<lambda>(a, _). a \<noteq> ?p1) (blocks m) = blocks m"
    by (rule filter_other_addr) (auto dest: fresh_addr_gt)
  have f2: "filter (\<lambda>(a, _). a \<noteq> ?p2) (blocks m) = blocks m"
    by (rule filter_other_addr) (auto dest: fresh_addr_copied_gt [where s = s])
  have l1: "lookup_block ?m2 ?p1 = Some (s @ [NUL])"
    using ne by (simp add: lookup_block_copied)
  have l2: "lookup_block (SCIPfreeMemoryArray ?m2 ?p1) ?p2 = Some (d @ [NUL])"
    using ne by (simp add: lookup_block_free lookup_block_copied)
  have b: "blocks ?m2 = (?p2, d @ [NUL]) # (?p1, s @ [NUL]) # blocks m"
    and c: "capacity ?m2 = capacity m - (length s + 1) - (length d + 1)"
    and e: "events ?m2 = events m @ [Alloc ?p1, Alloc ?p2]"
    and r: "memory.more ?m2 = memory.more m"
    and c1: "capacity (copied m s) = capacity m - (length s + 1)"
    by (simp_all add: copied_def)
  show ?thesis
    by (rule memory.equality)
      (use assms ne in \<open>simp_all add: blocks_free capacity_free events_free more_free
         l1 l2 b c c1 e r f1 f2\<close>)
qed

lemma dtor_events:
  "events (ObjTable_dtor m this) =
     events m @
       [if lookup_block m (scip_name' this) = None
          then InvalidFree (scip_name' this) else Free (scip_name' this),
        if lookup_block (SCIPfreeMemoryArray m (scip_name' this)) (scip_desc' this) = None
          then InvalidFree (scip_desc' this) else Free (scip_desc' this)]"
  by (simp add: ObjTable_dtor_def Let_def events_free)

lemma dtor_lookup:
  "lookup_block (ObjTable_dtor m this) p =
     (if p = scip_name' this \<or> p = scip_desc' this then None else lookup_block m p)"
  by (simp add: ObjTable_dtor_def Let_def lookup_block_free)

section \<open>Facts about the hooks\<close>

lemma default_hook_okay: "default_hook h w this scip table = (SCIP_OKAY, this, w)"
  by (cases h) (simp_all add: scip_free_def scip_init_def scip_exit_def scip_initsol_def
      scip_exitsol_def)

lemma run_hooks_default: "run_hooks cs w this = (replicate (length cs) SCIP_OKAY, this, w)"
  by (induction cs) (auto simp: default_hook_okay)

lemma inherit_Some: "inherit (Some f) own = Some (case own of None \<Rightarrow> f | Some g \<Rightarrow> g)"
  by (simp add: inherit_def split: option.splits)

lemma inherit_None: "inherit None own = own"
  by (simp add: inherit_def split: option.splits)

section \<open>Facts about the registry\<close>

lemma find_append:
  "find P (xs @ ys) = (case find P xs of None \<Rightarrow> find P ys | Some x \<Rightarrow> Some x)"
  by (induction xs) auto

lemma include_Registered:
  assumes "SCIPincludeObjTable m h objtable this deleteobject = (Registered, h1)"
  shows "\<exists>name desc.
           cstring m (scip_name' this) = Some name \<and> cstring m (scip_desc' this) = Some desc \<and>
           find_table h name = None \<and> table_slots h \<noteq> 0 \<and>
           h1 = h\<lparr>tables := tables h @
                     [\<lparr>table_name = name, table_desc = desc,
                       table_position = scip_position' this,
                       table_earlieststage = scip_earlieststage' this,
                       table_data = ObjTableData objtable deleteobject\<rparr>],
                  table_slots := table_slots h - 1\<rparr>"
  using assms
  by (auto simp: SCIPincludeObjTable_def split: option.splits if_splits)

section \<open>Facts about the example\<close>

lemma example_name: "cstring (example_memory c) 1 = Some ''gapstat''"
  by (simp add: example_memory_def cstring_def lookup_block_def NUL_def)

lemma example_desc: "cstring (example_memory c) 2 = Some ''gap statistics''"
  by (simp add: example_memory_def cstring_def lookup_block_def NUL_def)

lemma example_fresh: "fresh_addr (example_memory c) = 3"
  by (simp add: example_memory_def fresh_addr_def)

lemma example_ctor:
  "ObjTable_ctor (example_memory 64) 7 1 2 1000 ''solving'' =
     Inr (example_object, example_constructed)"
  by (simp add: example_memory_def example_object_def example_constructed_def
      ObjTable_ctor_def strlen_def cstring_def lookup_block_def NUL_def
      SCIPduplicateMemoryArray_def SCIP_CALL_ABORT_def fresh_addr_def Let_def)


lemma example_copies:
  "cstring example_constructed 3 = Some ''gapstat''"
  "cstring example_constructed 4 = Some ''gap statistics''"
  "cstring example_constructed 1 = Some ''gapstat''"
  "cstring example_constructed 2 = Some ''gap statistics''"
  by (simp_all add: example_constructed_def cstring_def lookup_block_def NUL_def)

lemma example_register:
  "SCIPincludeObjTable example_constructed \<lparr>tables = [], table_slots = 4\<rparr> 20
     example_object True = (Registered, example_registered)"
  by (simp add: SCIPincludeObjTable_def example_object_def example_copies
      example_registered_def find_table_def)

section \<open>The claims\<close>

text \<open>
  C1. After a successful construction from valid strings, deleting the object releases the
  name copy and the description copy once each and then the object: the memory is the
  one before the construction again, with two allocations and two releases logged and no
  invalid release. In any later memory in which both copies are still live, deleting the
  object logs the two releases and then the release of the object, and takes exactly
  these two blocks away.
\<close>

theorem ObjTable_delete_releases_both_copies_once:
  assumes "cstring m name = Some s" and "cstring m desc = Some d"
    and "ObjTable_ctor m scip name desc position earlieststage = Inr (this, m1)"
  shows "delete_ObjTable m1 this =
           m\<lparr>events := events m @
                [Alloc (scip_name' this), Alloc (scip_desc' this),
                 Free (scip_name' this), Free (scip_desc' this), ObjectReleased]\<rparr> \<and>
         alloc_count (delete_ObjTable m1 this) = alloc_count m + 2 \<and>
         free_count (delete_ObjTable m1 this) = free_count m + 2 \<and>
         invalid_free_count (delete_ObjTable m1 this) = invalid_free_count m \<and>
         (\<forall>m2. lookup_block m2 (scip_name' this) \<noteq> None \<and>
                lookup_block m2 (scip_desc' this) \<noteq> None \<longrightarrow>
                events (delete_ObjTable m2 this) =
                  events m2 @ [Free (scip_name' this), Free (scip_desc' this), ObjectReleased] \<and>
                (\<forall>p. lookup_block (delete_ObjTable m2 this) p =
                       (if p = scip_name' this \<or> p = scip_desc' this then None
                        else lookup_block m2 p)))"
proof -
  note ok = ctor_success [OF assms]
  have ne: "scip_desc' this \<noteq> scip_name' this"
    unfolding ok(3) by (simp add: fresh_addr_copied)
  have "ObjTable_dtor m1 this =
          m\<lparr>events := events m @
               [Alloc (scip_name' this), Alloc (scip_desc' this),
                Free (scip_name' this), Free (scip_desc' this)]\<rparr>"
    unfolding ok(3,4) ObjTable_dtor_def Let_def
    using free_both_copies [OF ok(1,2)] by simp
  then have whole: "delete_ObjTable m1 this =
           m\<lparr>events := events m @
                [Alloc (scip_name' this), Alloc (scip_desc' this),
                 Free (scip_name' this), Free (scip_desc' this), ObjectReleased]\<rparr>"
    by (simp add: delete_ObjTable_def Let_def)
  have counts: "alloc_count (delete_ObjTable m1 this) = alloc_count m + 2"
    "free_count (delete_ObjTable m1 this) = free_count m + 2"
    "invalid_free_count (delete_ObjTable m1 this) = invalid_free_count m"
    unfolding whole count_simps
    by (simp_all add: alloc_count_def free_count_def invalid_free_count_def)
  have later: "events (delete_ObjTable m2 this) =
                  events m2 @ [Free (scip_name' this), Free (scip_desc' this), ObjectReleased] \<and>
                (\<forall>p. lookup_block (delete_ObjTable m2 this) p =
                       (if p = scip_name' this \<or> p = scip_desc' this then None
                        else lookup_block m2 p))"
    if "lookup_block m2 (scip_name' this) \<noteq> None" "lookup_block m2 (scip_desc' this) \<noteq> None"
    for m2
  proof -
    have "lookup_block (delete_ObjTable m2 this) p = lookup_block (ObjTable_dtor m2 this) p" for p
      by (simp add: delete_ObjTable_def Let_def lookup_block_def)
    then show ?thesis
      using that ne
      by (simp add: delete_ObjTable_def Let_def dtor_events dtor_lookup lookup_block_free)
  qed
  show ?thesis
    using whole counts later by blast
qed

theorem ObjTable_delete_releases_both_copies_once_witness:
  "ObjTable_ctor (example_memory 64) 7 1 2 1000 ''solving'' =
     Inr (example_object, example_constructed) \<and>
   delete_ObjTable example_constructed example_object =
     \<lparr>blocks = [(1, ''gapstat'' @ [NUL]), (2, ''gap statistics'' @ [NUL])],
      capacity = 64,
      events = [Alloc 3, Alloc 4, Free 3, Free 4, ObjectReleased]\<rparr> \<and>
   alloc_count (delete_ObjTable example_constructed example_object) = 2 \<and>
   free_count (delete_ObjTable example_constructed example_object) = 2 \<and>
   invalid_free_count (delete_ObjTable example_constructed example_object) = 0"
proof -
  note t = ObjTable_delete_releases_both_copies_once [OF example_name example_desc example_ctor]
  have "delete_ObjTable example_constructed example_object =
          (example_memory 64)\<lparr>events := events (example_memory 64) @
              [Alloc (scip_name' example_object), Alloc (scip_desc' example_object),
               Free (scip_name' example_object), Free (scip_desc' example_object),
               ObjectReleased]\<rparr>"
    using t by (rule conjunct1)
  then have whole: "delete_ObjTable example_constructed example_object =
     \<lparr>blocks = [(1, ''gapstat'' @ [NUL]), (2, ''gap statistics'' @ [NUL])],
      capacity = 64,
      events = [Alloc 3, Alloc 4, Free 3, Free 4, ObjectReleased]\<rparr>"
    by (simp add: example_memory_def example_object_def)
  have "alloc_count (delete_ObjTable example_constructed example_object) =
          alloc_count (example_memory 64) + 2"
    and "free_count (delete_ObjTable example_constructed example_object) =
          free_count (example_memory 64) + 2"
    and "invalid_free_count (delete_ObjTable example_constructed example_object) =
          invalid_free_count (example_memory 64)"
    using t by blast+
  then have counts: "alloc_count (delete_ObjTable example_constructed example_object) = 2"
    "free_count (delete_ObjTable example_constructed example_object) = 2"
    "invalid_free_count (delete_ObjTable example_constructed example_object) = 0"
    by (simp_all add: example_memory_def alloc_count_def free_count_def
        invalid_free_count_def)
  show ?thesis
    using example_ctor whole counts by blast
qed

text \<open>
  C2. With valid strings: when the name copy cannot be allocated, or the name copy can and
  the description copy cannot, the constructor aborts with the allocation failure and
  returns no object. When it returns an object, both copies were allocated, and the two
  pointers of the object are neither null nor the pointers the caller passed.
\<close>

theorem ObjTable_ctor_aborts_on_allocation_failure:
  assumes "cstring m name = Some s" and "cstring m desc = Some d"
  shows "(SCIPduplicateMemoryArray m name (length s + 1) = Inr (SCIP_NOMEMORY, p, m') \<longrightarrow>
            ObjTable_ctor m scip name desc position earlieststage =
              Inl (Abort SCIP_NOMEMORY m')) \<and>
         (SCIPduplicateMemoryArray m name (length s + 1) = Inr (SCIP_OKAY, p1, m1) \<and>
          SCIPduplicateMemoryArray m1 desc (length d + 1) = Inr (SCIP_NOMEMORY, p, m') \<longrightarrow>
            ObjTable_ctor m scip name desc position earlieststage =
              Inl (Abort SCIP_NOMEMORY m')) \<and>
         (ObjTable_ctor m scip name desc position earlieststage = Inr (this, m2) \<longrightarrow>
            scip_name' this \<noteq> 0 \<and> scip_desc' this \<noteq> 0 \<and>
            scip_name' this \<noteq> name \<and> scip_name' this \<noteq> desc \<and>
            scip_desc' this \<noteq> name \<and> scip_desc' this \<noteq> desc \<and>
            SCIPduplicateMemoryArray m name (length s + 1) =
              Inr (SCIP_OKAY, scip_name' this, copied m s) \<and>
            SCIPduplicateMemoryArray (copied m s) desc (length d + 1) =
              Inr (SCIP_OKAY, scip_desc' this, m2))"
proof (intro conjI impI)
  note ctor = ObjTable_ctor_valid [OF assms, of scip position earlieststage]
  note dup1 = duplicate_cstring [OF assms(1)]
  have d1: "cstring (copied m s) desc = Some d"
    using assms(2) by (rule cstring_copied_old)
  note dup2 = duplicate_cstring [OF d1]
  {
    assume "SCIPduplicateMemoryArray m name (length s + 1) = Inr (SCIP_NOMEMORY, p, m')"
    then have "capacity m < length s + 1" "m' = m"
      unfolding dup1 by (auto split: if_splits)
    then show "ObjTable_ctor m scip name desc position earlieststage =
        Inl (Abort SCIP_NOMEMORY m')"
      unfolding ctor by simp
  next
    assume "SCIPduplicateMemoryArray m name (length s + 1) = Inr (SCIP_OKAY, p1, m1) \<and>
      SCIPduplicateMemoryArray m1 desc (length d + 1) = Inr (SCIP_NOMEMORY, p, m')"
    then have a: "SCIPduplicateMemoryArray m name (length s + 1) = Inr (SCIP_OKAY, p1, m1)"
      and b: "SCIPduplicateMemoryArray m1 desc (length d + 1) = Inr (SCIP_NOMEMORY, p, m')"
      by blast+
    from a have 1: "\<not> capacity m < length s + 1" "m1 = copied m s"
      unfolding dup1 by (auto split: if_splits)
    from b have 2: "capacity (copied m s) < length d + 1" "m' = copied m s"
      unfolding 1(2) dup2 by (auto split: if_splits)
    show "ObjTable_ctor m scip name desc position earlieststage =
        Inl (Abort SCIP_NOMEMORY m')"
      unfolding ctor using 1 2 by simp
  next
    assume ok: "ObjTable_ctor m scip name desc position earlieststage = Inr (this, m2)"
    note ok = ctor_success [OF assms ok]
    have n: "scip_name' this = fresh_addr m" and k: "scip_desc' this = fresh_addr (copied m s)"
      unfolding ok(3) by simp_all
    show "scip_name' this \<noteq> 0" "scip_desc' this \<noteq> 0"
      unfolding n k by (rule fresh_addr_nonzero)+
    show "scip_name' this \<noteq> name" "scip_name' this \<noteq> desc"
      unfolding n using cstring_live [OF assms(1)] cstring_live [OF assms(2)] by auto
    show "scip_desc' this \<noteq> name" "scip_desc' this \<noteq> desc"
      unfolding k
      using cstring_live [OF cstring_copied_old [OF assms(1), of s]] cstring_live [OF d1]
      by auto
    show "SCIPduplicateMemoryArray m name (length s + 1) =
        Inr (SCIP_OKAY, scip_name' this, copied m s)"
      unfolding dup1 n using ok(1) by simp
    show "SCIPduplicateMemoryArray (copied m s) desc (length d + 1) =
        Inr (SCIP_OKAY, scip_desc' this, m2)"
      unfolding dup2 k ok(4) using ok(2) by simp
  }
qed


theorem ObjTable_ctor_aborts_on_allocation_failure_witness:
  "ObjTable_ctor (example_memory 3) 7 1 2 1000 ''solving'' =
     Inl (Abort SCIP_NOMEMORY (example_memory 3)) \<and>
   ObjTable_ctor (example_memory 10) 7 1 2 1000 ''solving'' =
     Inl (Abort SCIP_NOMEMORY (copied (example_memory 10) ''gapstat'')) \<and>
   ObjTable_ctor (example_memory 64) 7 1 2 1000 ''solving'' =
     Inr (example_object, example_constructed) \<and>
   scip_name' example_object \<noteq> 0 \<and> scip_desc' example_object \<noteq> 0 \<and>
   scip_name' example_object \<noteq> 1 \<and> scip_name' example_object \<noteq> 2 \<and>
   scip_desc' example_object \<noteq> 1 \<and> scip_desc' example_object \<noteq> 2"
proof -
  have a: "SCIPduplicateMemoryArray (example_memory 3) 1 (length ''gapstat'' + 1) =
      Inr (SCIP_NOMEMORY, 0, example_memory 3)"
    by (simp add: SCIPduplicateMemoryArray_def example_memory_def)
  have b1: "SCIPduplicateMemoryArray (example_memory 10) 1 (length ''gapstat'' + 1) =
      Inr (SCIP_OKAY, 3, copied (example_memory 10) ''gapstat'')"
    unfolding duplicate_cstring [OF example_name] example_fresh
    by (simp add: example_memory_def)
  have b2: "SCIPduplicateMemoryArray (copied (example_memory 10) ''gapstat'') 2
      (length ''gap statistics'' + 1) =
      Inr (SCIP_NOMEMORY, 0, copied (example_memory 10) ''gapstat'')"
    by (simp add: SCIPduplicateMemoryArray_def copied_def example_memory_def)
  have "ObjTable_ctor (example_memory 3) 7 1 2 1000 ''solving'' =
     Inl (Abort SCIP_NOMEMORY (example_memory 3))"
    using ObjTable_ctor_aborts_on_allocation_failure [OF example_name example_desc,
        where c1 = 3 and scip = 7 and position = 1000 and earlieststage = "''solving''"
          and p = 0 and m' = "example_memory 3", THEN conjunct1, THEN mp, OF a] .
  moreover have "ObjTable_ctor (example_memory 10) 7 1 2 1000 ''solving'' =
     Inl (Abort SCIP_NOMEMORY (copied (example_memory 10) ''gapstat''))"
    using ObjTable_ctor_aborts_on_allocation_failure [OF example_name example_desc,
        where c1 = 10 and scip = 7 and position = 1000 and earlieststage = "''solving''"
          and p = 0 and m' = "copied (example_memory 10) ''gapstat''" and ?p1.0 = 3
          and ?m1.0 = "copied (example_memory 10) ''gapstat''",
        THEN conjunct2, THEN conjunct1, THEN mp, OF conjI [OF b1 b2]] .
  moreover have "scip_name' example_object \<noteq> 0 \<and> scip_desc' example_object \<noteq> 0 \<and>
   scip_name' example_object \<noteq> 1 \<and> scip_name' example_object \<noteq> 2 \<and>
   scip_desc' example_object \<noteq> 1 \<and> scip_desc' example_object \<noteq> 2"
    using ObjTable_ctor_aborts_on_allocation_failure [OF example_name example_desc,
        where c1 = 64 and scip = 7 and position = 1000 and earlieststage = "''solving''"
          and this = example_object and ?m2.0 = example_constructed,
        THEN conjunct2, THEN conjunct2, THEN mp, OF example_ctor]
    by blast
  ultimately show ?thesis
    using example_ctor by blast
qed



text \<open>
  C4. After a successful construction from valid strings the two pointers of the object
  are not null; they point to blocks that did not exist before the construction, different
  from each other and from the blocks of the caller; the strings there are the strings the
  caller passed; the caller's strings are untouched, and when the caller releases them the
  copies still hold their strings. The default hooks, called in any order and number,
  leave the object as it is.
\<close>

theorem ObjTable_owns_copies_of_name_and_desc:
  assumes "cstring m name = Some s" and "cstring m desc = Some d"
    and "ObjTable_ctor m scip name desc position earlieststage = Inr (this, m1)"
  shows "scip_name' this \<noteq> 0 \<and> scip_desc' this \<noteq> 0 \<and>
         cstring m1 (scip_name' this) = Some s \<and> cstring m1 (scip_desc' this) = Some d \<and>
         lookup_block m (scip_name' this) = None \<and>
         lookup_block m (scip_desc' this) = None \<and>
         scip_name' this \<noteq> scip_desc' this \<and>
         scip_name' this \<noteq> name \<and> scip_name' this \<noteq> desc \<and>
         scip_desc' this \<noteq> name \<and> scip_desc' this \<noteq> desc \<and>
         cstring m1 name = Some s \<and> cstring m1 desc = Some d \<and>
         cstring (SCIPfreeMemoryArray (SCIPfreeMemoryArray m1 name) desc) (scip_name' this) =
           Some s \<and>
         cstring (SCIPfreeMemoryArray (SCIPfreeMemoryArray m1 name) desc) (scip_desc' this) =
           Some d \<and>
         run_hooks cs w this = (replicate (length cs) SCIP_OKAY, this, w)"
proof -
  note ok = ctor_success [OF assms]
  let ?p1 = "fresh_addr m" and ?p2 = "fresh_addr (copied m s)"
  have n: "scip_name' this = ?p1" and k: "scip_desc' this = ?p2"
    unfolding ok(3) by simp_all
  have s0: "NUL \<notin> set s" and d0: "NUL \<notin> set d"
    using assms(1,2) by (auto dest: cstring_no_NUL)
  have name1: "cstring (copied m s) name = Some s" and desc1: "cstring (copied m s) desc = Some d"
    using assms(1,2) by (auto intro: cstring_copied_old)
  have copy1: "cstring (copied m s) ?p1 = Some s"
    using s0 by (rule cstring_copied_new)
  have in_m1: "cstring m1 ?p1 = Some s" "cstring m1 ?p2 = Some d"
    "cstring m1 name = Some s" "cstring m1 desc = Some d"
    unfolding ok(4)
    using copy1 name1 desc1 d0 by (auto intro: cstring_copied_old cstring_copied_new)
  have ne: "?p1 \<noteq> 0" "?p2 \<noteq> 0" "?p1 \<noteq> ?p2"
    "?p1 \<noteq> name" "?p1 \<noteq> desc" "?p2 \<noteq> name" "?p2 \<noteq> desc"
    using fresh_addr_nonzero [of m] fresh_addr_nonzero [of "copied m s"]
      fresh_addr_copied [of m s] cstring_live [OF assms(1)] cstring_live [OF assms(2)]
      cstring_live [OF name1] cstring_live [OF desc1]
    by auto
  have fresh: "lookup_block m ?p1 = None" "lookup_block m ?p2 = None"
    by (rule lookup_block_fresh, rule lookup_block_before_copy)
  have indep:
    "cstring (SCIPfreeMemoryArray (SCIPfreeMemoryArray m1 name) desc) ?p1 = Some s"
    "cstring (SCIPfreeMemoryArray (SCIPfreeMemoryArray m1 name) desc) ?p2 = Some d"
    using ne in_m1 by (simp_all add: cstring_free)
  show ?thesis
    unfolding n k using ne in_m1 fresh indep by (simp add: run_hooks_default)
qed

theorem ObjTable_owns_copies_of_name_and_desc_witness:
  "cstring example_constructed (scip_name' example_object) = Some ''gapstat'' \<and>
   cstring example_constructed (scip_desc' example_object) = Some ''gap statistics'' \<and>
   scip_name' example_object \<noteq> 0 \<and> scip_desc' example_object \<noteq> 0 \<and>
   scip_name' example_object \<noteq> 1 \<and> scip_desc' example_object \<noteq> 2 \<and>
   lookup_block (example_memory 64) (scip_name' example_object) = None \<and>
   lookup_block (example_memory 64) (scip_desc' example_object) = None \<and>
   cstring (SCIPfreeMemoryArray (SCIPfreeMemoryArray example_constructed 1) 2)
     (scip_name' example_object) = Some ''gapstat'' \<and>
   run_hooks [(TABLEINIT, 7, 9), (TABLEEXIT, 7, 9)] example_constructed example_object =
     ([SCIP_OKAY, SCIP_OKAY], example_object, example_constructed)"
proof -
  note t = ObjTable_owns_copies_of_name_and_desc [OF example_name example_desc example_ctor,
      of "[(TABLEINIT, 7, 9), (TABLEEXIT, 7, 9)]" example_constructed]
  have "replicate (length [(TABLEINIT, 7::nat, 9::nat), (TABLEEXIT, 7, 9)]) SCIP_OKAY =
      [SCIP_OKAY, SCIP_OKAY]"
    by simp
  with t show ?thesis
    by metis
qed

text \<open>
  C5. ObjTable itself is abstract. A class derived from it can be instantiated exactly when
  it supplies \<^verbatim>\<open>scip_output\<close>; each of the other five hooks is the one the derived
  class supplies, or else the default of ObjTable.
\<close>

theorem scip_output_is_the_only_mandatory_hook:
  "abstract_class ObjTable_virtuals \<and>
   \<not> instantiable ObjTable_virtuals \<and>
   instantiable (derive ObjTable_virtuals own) = (v_scip_output own \<noteq> None) \<and>
   v_scip_output (derive ObjTable_virtuals own) = v_scip_output own \<and>
   v_scip_free (derive ObjTable_virtuals own) =
     Some (case v_scip_free own of None \<Rightarrow> scip_free | Some f \<Rightarrow> f) \<and>
   v_scip_init (derive ObjTable_virtuals own) =
     Some (case v_scip_init own of None \<Rightarrow> scip_init | Some f \<Rightarrow> f) \<and>
   v_scip_exit (derive ObjTable_virtuals own) =
     Some (case v_scip_exit own of None \<Rightarrow> scip_exit | Some f \<Rightarrow> f) \<and>
   v_scip_initsol (derive ObjTable_virtuals own) =
     Some (case v_scip_initsol own of None \<Rightarrow> scip_initsol | Some f \<Rightarrow> f) \<and>
   v_scip_exitsol (derive ObjTable_virtuals own) =
     Some (case v_scip_exitsol own of None \<Rightarrow> scip_exitsol | Some f \<Rightarrow> f)"
  by (simp add: instantiable_def abstract_class_def derive_def ObjTable_virtuals_def
      inherit_Some inherit_None)

theorem scip_output_is_the_only_mandatory_hook_witness:
  "instantiable
     (derive ObjTable_virtuals
        (\<lparr>v_scip_free = None, v_scip_init = None, v_scip_exit = None,
          v_scip_initsol = None, v_scip_exitsol = None,
          v_scip_output = Some (\<lambda>w this scip table file. (SCIP_OKAY, this, w))\<rparr>
         :: (memory, char list) virtuals)) \<and>
   \<not> instantiable
     (derive ObjTable_virtuals
        (\<lparr>v_scip_free = Some scip_free, v_scip_init = Some scip_init,
          v_scip_exit = Some scip_exit, v_scip_initsol = Some scip_initsol,
          v_scip_exitsol = Some scip_exitsol, v_scip_output = None\<rparr>
         :: (memory, char list) virtuals))"
proof -
  let ?with = "\<lparr>v_scip_free = None, v_scip_init = None, v_scip_exit = None,
          v_scip_initsol = None, v_scip_exitsol = None,
          v_scip_output = Some (\<lambda>w this scip table file. (SCIP_OKAY, this, w))\<rparr>
         :: (memory, char list) virtuals"
  let ?without = "\<lparr>v_scip_free = Some scip_free, v_scip_init = Some scip_init,
          v_scip_exit = Some scip_exit, v_scip_initsol = Some scip_initsol,
          v_scip_exitsol = Some scip_exitsol, v_scip_output = None\<rparr>
         :: (memory, char list) virtuals"
  have "instantiable (derive ObjTable_virtuals ?with) = (v_scip_output ?with \<noteq> None)"
    using scip_output_is_the_only_mandatory_hook [of ?with] by (elim conjE)
  moreover have
    "instantiable (derive ObjTable_virtuals ?without) = (v_scip_output ?without \<noteq> None)"
    using scip_output_is_the_only_mandatory_hook [of ?without] by (elim conjE)
  ultimately show ?thesis
    by simp
qed

text \<open>
  C6. Each of the five hooks with a default body, called with any arguments on any object
  in any state of the world, returns \<^verbatim>\<open>SCIP_OKAY\<close> and leaves the object and the world
  as they were.
\<close>

theorem default_hooks_succeed_without_effect:
  "scip_free w this scip table = (SCIP_OKAY, this, w) \<and>
   scip_init w this scip table = (SCIP_OKAY, this, w) \<and>
   scip_exit w this scip table = (SCIP_OKAY, this, w) \<and>
   scip_initsol w this scip table = (SCIP_OKAY, this, w) \<and>
   scip_exitsol w this scip table = (SCIP_OKAY, this, w)"
  by (simp add: scip_free_def scip_init_def scip_exit_def scip_initsol_def scip_exitsol_def)

text \<open>
  C7. The constructor does not look at the position and the stage: with other values for
  them it fails in the same way or returns the same object and memory up to these two
  fields. A constructed object holds the values passed, and after any calls of the default
  hooks it still does.
\<close>

theorem ObjTable_position_and_stage_verbatim:
  "ObjTable_ctor m scip name desc position2 earlieststage2 =
     map_sum id
       (\<lambda>(this, m1). (this\<lparr>scip_position' := position2,
                              scip_earlieststage' := earlieststage2\<rparr>, m1))
       (ObjTable_ctor m scip name desc position earlieststage) \<and>
   (ObjTable_ctor m scip name desc position earlieststage = Inr (this, m1) \<longrightarrow>
      scip_position' this = position \<and> scip_earlieststage' this = earlieststage \<and>
      (run_hooks cs w this = (rcs, this2, w2) \<longrightarrow>
         scip_position' this2 = position \<and> scip_earlieststage' this2 = earlieststage))"
proof (intro conjI impI)
  show "ObjTable_ctor m scip name desc position2 earlieststage2 =
     map_sum id
       (\<lambda>(this, m1). (this\<lparr>scip_position' := position2,
                              scip_earlieststage' := earlieststage2\<rparr>, m1))
       (ObjTable_ctor m scip name desc position earlieststage)"
    by (simp add: ObjTable_ctor_def Let_def split: option.splits sum.splits prod.splits)
next
  assume ok: "ObjTable_ctor m scip name desc position earlieststage = Inr (this, m1)"
  then show f: "scip_position' this = position" "scip_earlieststage' this = earlieststage"
    by (auto simp: ObjTable_ctor_def Let_def split: option.splits sum.splits prod.splits)
  then show "scip_position' this2 = position" "scip_earlieststage' this2 = earlieststage"
    if "run_hooks cs w this = (rcs, this2, w2)"
    using that by (simp_all add: run_hooks_default)
qed

theorem ObjTable_position_and_stage_verbatim_witness:
  "ObjTable_ctor (example_memory 64) 7 1 2 1000 ''solving'' =
     Inr (example_object, example_constructed) \<and>
   scip_position' example_object = 1000 \<and>
   scip_earlieststage' example_object = ''solving'' \<and>
   ObjTable_ctor (example_memory 64) 7 1 2 (- 5) ''no such stage'' =
     Inr (example_object\<lparr>scip_position' := - 5, scip_earlieststage' := ''no such stage''\<rparr>,
          example_constructed) \<and>
   run_hooks [(TABLEINITSOL, 7, 9), (TABLEEXITSOL, 7, 9), (TABLEFREE, 7, 9)]
     example_constructed example_object =
     ([SCIP_OKAY, SCIP_OKAY, SCIP_OKAY], example_object, example_constructed)"
proof -
  have run: "run_hooks [(TABLEINITSOL, 7, 9), (TABLEEXITSOL, 7, 9), (TABLEFREE, 7, 9)]
     example_constructed example_object =
     ([SCIP_OKAY, SCIP_OKAY, SCIP_OKAY], example_object, example_constructed)"
    by (simp add: scip_initsol_def scip_exitsol_def scip_free_def)
  note t = ObjTable_position_and_stage_verbatim [of "example_memory 64" 7 1 2 "- 5"
      "''no such stage''" 1000 "''solving''" example_object example_constructed
      "[(TABLEINITSOL, 7, 9), (TABLEEXITSOL, 7, 9), (TABLEFREE, 7, 9)]" example_constructed
      "[SCIP_OKAY, SCIP_OKAY, SCIP_OKAY]" example_object example_constructed]
  have "scip_position' example_object = 1000 \<and>
    scip_earlieststage' example_object = ''solving''"
    using t [THEN conjunct2, THEN mp, OF example_ctor] run by blast
  moreover have "ObjTable_ctor (example_memory 64) 7 1 2 (- 5) ''no such stage'' =
     Inr (example_object\<lparr>scip_position' := - 5, scip_earlieststage' := ''no such stage''\<rparr>,
          example_constructed)"
    using t [THEN conjunct1] unfolding example_ctor by simp
  ultimately show ?thesis
    using example_ctor run by blast
qed

text \<open>
  C8. Registering an object whose name is registered already fails with a collision and
  leaves the registry as it was. After a first object has been registered, registering a
  second one of the same name fails in this way; the name is still found and gives the
  first object, which is the one entry of that name.
\<close>

theorem SCIPincludeObjTable_rejects_same_name:
  "(find_table h name \<noteq> None \<and> cstring m (scip_name' this) = Some name \<and>
    cstring m (scip_desc' this) = Some desc \<longrightarrow>
      SCIPincludeObjTable m h objtable this deleteobject = (NameCollision, h)) \<and>
   (SCIPincludeObjTable m h a thisA deleteA = (Registered, h1) \<and>
    cstring m (scip_name' thisA) = Some name \<and>
    cstring m2 (scip_name' thisB) = Some name \<and>
    cstring m2 (scip_desc' thisB) = Some descB \<longrightarrow>
      SCIPincludeObjTable m2 h1 b thisB deleteB = (NameCollision, h1) \<and>
      SCIPfindObjTable h1 name = Some a \<and>
      map SCIPgetObjTable (filter (\<lambda>t. table_name t = name) (tables h1)) = [Some a])"
proof (intro conjI impI)
  assume "find_table h name \<noteq> None \<and> cstring m (scip_name' this) = Some name \<and>
    cstring m (scip_desc' this) = Some desc"
  then show "SCIPincludeObjTable m h objtable this deleteobject = (NameCollision, h)"
    by (simp add: SCIPincludeObjTable_def)
next
  assume a: "SCIPincludeObjTable m h a thisA deleteA = (Registered, h1) \<and>
    cstring m (scip_name' thisA) = Some name \<and>
    cstring m2 (scip_name' thisB) = Some name \<and>
    cstring m2 (scip_desc' thisB) = Some descB"
  then obtain desc where
    free: "find_table h name = None" and
    h1: "h1 = h\<lparr>tables := tables h @
                     [\<lparr>table_name = name, table_desc = desc,
                       table_position = scip_position' thisA,
                       table_earlieststage = scip_earlieststage' thisA,
                       table_data = ObjTableData a deleteA\<rparr>],
                  table_slots := table_slots h - 1\<rparr>"
    by (auto dest!: include_Registered)
  have none: "find (\<lambda>t. table_name t = name) (tables h) = None"
    using free by (simp add: find_table_def)
  then have nofilter: "filter (\<lambda>t. table_name t = name) (tables h) = []"
    by (auto simp: find_None_iff filter_empty_conv)
  have found: "find_table h1 name =
      Some \<lparr>table_name = name, table_desc = desc,
            table_position = scip_position' thisA,
            table_earlieststage = scip_earlieststage' thisA,
            table_data = ObjTableData a deleteA\<rparr>"
    unfolding h1 find_table_def by (simp add: find_append none)
  show "SCIPincludeObjTable m2 h1 b thisB deleteB = (NameCollision, h1)"
    using a found by (simp add: SCIPincludeObjTable_def)
  show "SCIPfindObjTable h1 name = Some a"
    by (simp add: SCIPfindObjTable_def found SCIPgetObjTable_def)
  show "map SCIPgetObjTable (filter (\<lambda>t. table_name t = name) (tables h1)) = [Some a]"
    unfolding h1 by (simp add: nofilter SCIPgetObjTable_def)
qed

theorem SCIPincludeObjTable_rejects_same_name_witness:
  "SCIPincludeObjTable example_constructed \<lparr>tables = [], table_slots = 4\<rparr> 20
     example_object True = (Registered, example_registered) \<and>
   SCIPincludeObjTable example_constructed example_registered 21
     \<lparr>scip' = 7, scip_name' = 1, scip_desc' = 2, scip_position' = 5,
      scip_earlieststage' = ''presolving''\<rparr> False = (NameCollision, example_registered) \<and>
   SCIPfindObjTable example_registered ''gapstat'' = Some 20 \<and>
   map SCIPgetObjTable
     (filter (\<lambda>t. table_name t = ''gapstat'') (tables example_registered)) = [Some 20]"
proof -
  let ?B = "\<lparr>scip' = 7, scip_name' = 1, scip_desc' = 2, scip_position' = 5,
      scip_earlieststage' = ''presolving''\<rparr>"
  have nameA: "cstring example_constructed (scip_name' example_object) = Some ''gapstat''"
    by (simp add: example_object_def example_copies)
  have nameB: "cstring example_constructed (scip_name' ?B) = Some ''gapstat''"
    and descB: "cstring example_constructed (scip_desc' ?B) = Some ''gap statistics''"
    by (simp_all add: example_constructed_def cstring_def lookup_block_def NUL_def)
  have there: "find_table example_registered ''gapstat'' \<noteq> None"
    by (simp add: find_table_def example_registered_def)
  note t = SCIPincludeObjTable_rejects_same_name
    [where h = example_registered and name = "''gapstat''" and m = example_constructed
       and this = ?B and desc = "''gap statistics''" and objtable = 21
       and deleteobject = False]
  have 1: "SCIPincludeObjTable example_constructed example_registered 21 ?B False =
      (NameCollision, example_registered)"
    using t [THEN conjunct1, THEN mp] there nameB descB by blast
  note u = SCIPincludeObjTable_rejects_same_name
    [where h = "\<lparr>tables = [], table_slots = 4\<rparr>" and name = "''gapstat''"
       and m = example_constructed and a = 20 and thisA = example_object
       and deleteA = True and ?h1.0 = example_registered and ?m2.0 = example_constructed
       and thisB = ?B and descB = "''gap statistics''" and b = 21 and deleteB = False,
     THEN conjunct2, THEN mp, OF conjI [OF example_register conjI [OF nameA conjI [OF nameB descB]]]]
  show ?thesis
    using example_register 1 u by blast
qed

text \<open>
  C9. After an object has been registered, the entry made for it is the last of the
  registry and the one found under the name of the object, and reading its user data back
  gives the pointer that was registered. An entry without user data, or with user data set
  by another mechanism, gives nothing.
\<close>

theorem SCIPgetObjTable_round_trip:
  "(SCIPincludeObjTable m h objtable this deleteobject = (Registered, h1) \<and>
    cstring m (scip_name' this) = Some name \<longrightarrow>
      tables h1 = tables h @ [last (tables h1)] \<and>
      find_table h1 name = Some (last (tables h1)) \<and>
      table_data (last (tables h1)) = ObjTableData objtable deleteobject \<and>
      SCIPgetObjTable (last (tables h1)) = Some objtable) \<and>
   SCIPgetObjTable (t\<lparr>table_data := NoData\<rparr>) = None \<and>
   SCIPgetObjTable (t\<lparr>table_data := ForeignData x\<rparr>) = None"
proof (intro conjI impI)
  assume a: "SCIPincludeObjTable m h objtable this deleteobject = (Registered, h1) \<and>
    cstring m (scip_name' this) = Some name"
  then obtain desc where
    free: "find_table h name = None" and
    h1: "h1 = h\<lparr>tables := tables h @
                     [\<lparr>table_name = name, table_desc = desc,
                       table_position = scip_position' this,
                       table_earlieststage = scip_earlieststage' this,
                       table_data = ObjTableData objtable deleteobject\<rparr>],
                  table_slots := table_slots h - 1\<rparr>"
    by (auto dest!: include_Registered)
  have none: "find (\<lambda>t. table_name t = name) (tables h) = None"
    using free by (simp add: find_table_def)
  show "tables h1 = tables h @ [last (tables h1)]"
    unfolding h1 by simp
  show "find_table h1 name = Some (last (tables h1))"
    unfolding h1 find_table_def by (simp add: find_append none)
  show "table_data (last (tables h1)) = ObjTableData objtable deleteobject"
    unfolding h1 by simp
  show "SCIPgetObjTable (last (tables h1)) = Some objtable"
    unfolding h1 by (simp add: SCIPgetObjTable_def)
qed (simp_all add: SCIPgetObjTable_def)

theorem SCIPgetObjTable_round_trip_witness:
  "SCIPincludeObjTable example_constructed \<lparr>tables = [], table_slots = 4\<rparr> 20
     example_object True = (Registered, example_registered) \<and>
   find_table example_registered ''gapstat'' = Some (last (tables example_registered)) \<and>
   SCIPgetObjTable (last (tables example_registered)) = Some 20"
proof -
  have nameA: "cstring example_constructed (scip_name' example_object) = Some ''gapstat''"
    by (simp add: example_object_def example_copies)
  note t = SCIPgetObjTable_round_trip
    [where h = "\<lparr>tables = [], table_slots = 4\<rparr>" and name = "''gapstat''"
       and m = example_constructed and objtable = 20 and this = example_object
       and deleteobject = True and ?h1.0 = example_registered,
     THEN conjunct1, THEN mp, OF conjI [OF example_register nameA]]
  show ?thesis
    using example_register t by blast
qed



end
